theory Spec2Isabelle
  imports Main
begin

section \<open>The rename engine of pattern-renamer\<close>

text \<open>
  The development follows \<^verbatim>\<open>src/pattern_renamer/main/main_model.py\<close>: the class
  \<^verbatim>\<open>MainModel\<close> with its inbound properties (picked paths, regex, replace pattern,
  rename target), its outbound properties (renamed paths, mistakes, the apply and undo flags,
  the application state), the method \<^verbatim>\<open>recompute\<close> and the two operations on the
  filesystem, \<^verbatim>\<open>apply_renaming\<close> and \<^verbatim>\<open>undo_renaming\<close>.

  Python strings are modelled as \<^typ>\<open>string\<close>. The only characters the path operations
  look at are the separator \<^verbatim>\<open>/\<close> and the dot.
\<close>

subsection \<open>Types of the model\<close>

text \<open>
  Modelled from the spec: the module \<^verbatim>\<open>types/rename_target.py\<close> is not part of the
  sources at hand. The spec gives the three modes: full path, final name, name without
  extension.
\<close>

datatype RenameTarget = FULL | NAME | STEM

text \<open>
  Modelled from the spec: the module \<^verbatim>\<open>types/mistakes.py\<close> is not part of the sources
  at hand. The spec lists the five kinds of mistake; the three destination mistakes carry the
  zero-based index of the entry, as the constructor calls in \<^verbatim>\<open>main_model.py\<close> show.
\<close>

datatype Mistake =
    InvalidRegexMistake
  | InvalidReplacePatternMistake
  | DuplicateMistake nat
  | ExistsMistake nat
  | InvalidDestinationMistake nat

text \<open>
  Modelled from the spec: the module \<^verbatim>\<open>types/app_state.py\<close> is not part of the sources
  at hand. The spec names the three states of a session.
\<close>

datatype AppState = EMPTY | RENAMING | RENAMED

text \<open>
  The exceptions that the calls of the model can raise. \<^verbatim>\<open>re.error\<close> is the only
  one the code catches; every other one leaves the method that is running.
\<close>

datatype exc =
    ReError
  | IndexError
  | OverflowError
  | RecursionError
  | ValueError
  | TypeError
  | FileNotFoundError
  | OSError

text \<open>
  The fields of \<^verbatim>\<open>MainModel\<close>. The property \<^verbatim>\<open>renamed_paths\<close> is declared with
  \<^verbatim>\<open>GObject.Property(type=object)\<close> and holds \<^verbatim>\<open>None\<close> until it is first assigned;
  since one branch of \<^verbatim>\<open>recompute\<close> leaves it as it was, the field is an option.
  \<^verbatim>\<open>mistakes\<close> is assigned by every \<^verbatim>\<open>recompute\<close> that returns, before it is read.
\<close>

record MainModel =
  picked_paths :: "string list"
  regex :: string
  replace_pattern :: string
  rename_target :: RenameTarget
  renamed_paths :: "string list option"
  mistakes :: "Mistake list"
  is_apply_enabled :: bool
  is_undo_enabled :: bool
  app_state :: AppState

subsection \<open>The libraries the model calls\<close>

text \<open>
  \<^verbatim>\<open>re\<close>, \<^verbatim>\<open>unicodedata\<close> and \<^verbatim>\<open>pathvalidate\<close> are not code of this
  repository; they are parameters of the model.
  \<^item> \<open>re_compile p\<close> is \<^verbatim>\<open>re.compile(pattern=p)\<close>: the compiled pattern, or the
    exception it raises. That is \<^verbatim>\<open>re.error\<close> for a malformed pattern, but also
    \<^verbatim>\<open>OverflowError\<close> for a repetition count that is too large and
    \<^verbatim>\<open>RecursionError\<close> for a pattern nested too deeply;
  \<^item> \<open>re_sub r repl s\<close> is \<^verbatim>\<open>r.sub(repl, s)\<close>: the resulting string, or the exception
    it raises. That is \<^verbatim>\<open>re.error\<close> for a malformed template, but also
    \<^verbatim>\<open>IndexError\<close> for a reference to a group name the pattern does not have;
  \<^item> \<open>normalize s\<close> is \<^verbatim>\<open>unicodedata.normalize("NFC", s)\<close>;
  \<^item> \<open>validate_filepath p\<close> holds when \<^verbatim>\<open>validate_filepath(file_path=p, platform="auto")\<close>
    returns without raising \<^verbatim>\<open>ValidationError\<close>.
\<close>

record 'rx library =
  re_compile :: "string \<Rightarrow> exc + 'rx"
  re_sub :: "'rx \<Rightarrow> string \<Rightarrow> string \<Rightarrow> exc + string"
  normalize :: "string \<Rightarrow> string"
  validate_filepath :: "string \<Rightarrow> bool"

subsection \<open>Paths, as \<^verbatim>\<open>pathlib\<close> reads them on POSIX\<close>

text \<open>
  \<^verbatim>\<open>Path(s)\<close> keeps a root (empty, \<^verbatim>\<open>/\<close> or \<^verbatim>\<open>//\<close>) and the list of the
  components of \<^verbatim>\<open>s\<close>, without the empty ones and without \<^verbatim>\<open>.\<close>; there is no drive
  on POSIX. The definitions below are the pure-path operations the model uses, as
  CPython 3.12 defines them.
\<close>

record PurePath =
  path_root :: string
  path_tail :: "string list"

text \<open>\<^verbatim>\<open>rel.split('/')\<close>: one more piece than there are separators.\<close>

fun split_sep :: "string \<Rightarrow> string list" where
  "split_sep [] = [[]]"
| "split_sep (c # cs) =
     (if c = CHR ''/'' then [] # split_sep cs
      else (case split_sep cs of [] \<Rightarrow> [[c]] | w # ws \<Rightarrow> (c # w) # ws))"

text \<open>\<^verbatim>\<open>'/'.join(tail)\<close>\<close>

fun join_sep :: "string list \<Rightarrow> string" where
  "join_sep [] = []"
| "join_sep [x] = x"
| "join_sep (x # y # ys) = x @ ''/'' @ join_sep (y # ys)"

text \<open>
  \<^verbatim>\<open>posixpath.splitroot\<close>: no leading slash, no root; exactly two leading slashes, the
  root \<^verbatim>\<open>//\<close>; one, or three and more, the root \<^verbatim>\<open>/\<close>.
\<close>

definition splitroot :: "string \<Rightarrow> string \<times> string" where
  "splitroot p =
     (if take 1 p \<noteq> ''/'' then ([], p)
      else if take 1 (drop 1 p) \<noteq> ''/'' \<or> take 1 (drop 2 p) = ''/'' then (''/'', drop 1 p)
      else (''//'', drop 2 p))"

definition parse_path :: "string \<Rightarrow> PurePath" where
  "parse_path p =
     (if p = [] then \<lparr>path_root = [], path_tail = []\<rparr>
      else (case splitroot p of (r, rel) \<Rightarrow>
        \<lparr>path_root = r, path_tail = filter (\<lambda>x. x \<noteq> [] \<and> x \<noteq> ''.'') (split_sep rel)\<rparr>))"

text \<open>\<^verbatim>\<open>str(p)\<close>: the root followed by the joined components, or a dot when both are empty.\<close>

definition path_str :: "PurePath \<Rightarrow> string" where
  "path_str p =
     (let s = path_root p @ join_sep (path_tail p) in if s = [] then ''.'' else s)"

text \<open>\<^verbatim>\<open>p.name\<close>: the last component, or the empty string.\<close>

definition name :: "PurePath \<Rightarrow> string" where
  "name p = (if path_tail p = [] then [] else last (path_tail p))"

text \<open>\<^verbatim>\<open>p.parent\<close>: the path without its last component; a path without components is its own parent.\<close>

definition parent :: "PurePath \<Rightarrow> PurePath" where
  "parent p = (if path_tail p = [] then p else p\<lparr>path_tail := butlast (path_tail p)\<rparr>)"

text \<open>
  \<^verbatim>\<open>name.rfind('.')\<close>, as an option: the index of the last dot.
\<close>

fun rfind_dot :: "string \<Rightarrow> nat option" where
  "rfind_dot [] = None"
| "rfind_dot (c # cs) =
     (case rfind_dot cs of
        Some i \<Rightarrow> Some (Suc i)
      | None \<Rightarrow> if c = CHR ''.'' then Some 0 else None)"

text \<open>
  \<^verbatim>\<open>p.suffix\<close> and \<^verbatim>\<open>p.stem\<close>: the name is cut at its last dot when that dot is
  neither the first nor the last character (\<^verbatim>\<open>0 < i < len(name) - 1\<close>).
\<close>

definition suffix :: "PurePath \<Rightarrow> string" where
  "suffix p =
     (case rfind_dot (name p) of
        Some i \<Rightarrow> if 0 < i \<and> i + 1 < length (name p) then drop i (name p) else []
      | None \<Rightarrow> [])"

definition stem :: "PurePath \<Rightarrow> string" where
  "stem p =
     (case rfind_dot (name p) of
        Some i \<Rightarrow> if 0 < i \<and> i + 1 < length (name p) then take i (name p) else name p
      | None \<Rightarrow> name p)"

text \<open>
  \<^verbatim>\<open>p.with_name(n)\<close> raises \<^verbatim>\<open>ValueError\<close> when \<^verbatim>\<open>p\<close> has no name, and when
  \<^verbatim>\<open>n\<close> is empty, contains the separator or is a dot.
  \<^verbatim>\<open>p.with_stem(s)\<close> is \<^verbatim>\<open>p.with_name(s + p.suffix)\<close>.
\<close>

definition with_name :: "PurePath \<Rightarrow> string \<Rightarrow> exc + PurePath" where
  "with_name p n =
     (if name p = [] then Inl ValueError
      else if n = [] \<or> CHR ''/'' \<in> set n \<or> n = ''.'' then Inl ValueError
      else Inr (p\<lparr>path_tail := butlast (path_tail p) @ [n]\<rparr>))"

definition with_stem :: "PurePath \<Rightarrow> string \<Rightarrow> exc + PurePath" where
  "with_stem p s = with_name p (s @ suffix p)"

text \<open>
  \<^verbatim>\<open>p / q\<close> for a path \<^verbatim>\<open>q\<close>: an absolute \<^verbatim>\<open>q\<close> replaces \<^verbatim>\<open>p\<close>, a relative one
  is appended. \<^verbatim>\<open>p / key\<close> for a string parses the string first.
\<close>

definition joinpath_path :: "PurePath \<Rightarrow> PurePath \<Rightarrow> PurePath" where
  "joinpath_path p q =
     (if path_root q \<noteq> [] then q
      else \<lparr>path_root = path_root p, path_tail = path_tail p @ path_tail q\<rparr>)"

definition joinpath :: "PurePath \<Rightarrow> string \<Rightarrow> PurePath" where
  "joinpath p key = joinpath_path p (parse_path key)"

subsection \<open>Renaming one path\<close>

definition rename_using_full_path :: "'rx library \<Rightarrow> 'rx \<Rightarrow> string \<Rightarrow> string \<Rightarrow> exc + string" where
  "rename_using_full_path lib r repl path = re_sub lib r repl path"

definition rename_using_name :: "'rx library \<Rightarrow> 'rx \<Rightarrow> string \<Rightarrow> string \<Rightarrow> exc + string" where
  "rename_using_name lib r repl path =
     (let p = parse_path path in
      case re_sub lib r repl (name p) of
        Inl e \<Rightarrow> Inl e
      | Inr n \<Rightarrow> Inr (path_str (joinpath (parent p) n)))"

definition rename_using_stem :: "'rx library \<Rightarrow> 'rx \<Rightarrow> string \<Rightarrow> string \<Rightarrow> exc + string" where
  "rename_using_stem lib r repl path =
     (let p = parse_path path in
      case re_sub lib r repl (stem p) of
        Inl e \<Rightarrow> Inl e
      | Inr st \<Rightarrow>
          (case with_stem p st of
             Inl e \<Rightarrow> Inl e
           | Inr n \<Rightarrow> Inr (path_str (joinpath_path (parent p) n))))"

text \<open>
  \<^verbatim>\<open>_rename\<close>: the three cases of the \<^verbatim>\<open>match\<close>. Its fourth case, which raises
  \<^verbatim>\<open>ValueError\<close> for an unknown target, has no value of \<^typ>\<open>RenameTarget\<close> to run on.
\<close>

fun rename :: "'rx library \<Rightarrow> 'rx \<Rightarrow> string \<Rightarrow> string \<Rightarrow> RenameTarget \<Rightarrow> exc + string" where
  "rename lib r path repl FULL = rename_using_full_path lib r repl path"
| "rename lib r path repl NAME = rename_using_name lib r repl path"
| "rename lib r path repl STEM = rename_using_stem lib r repl path"

text \<open>
  The list comprehension of \<^verbatim>\<open>recompute\<close>: the paths are renamed in order, and the first
  exception ends the computation.
\<close>

fun rename_all :: "'rx library \<Rightarrow> 'rx \<Rightarrow> string \<Rightarrow> RenameTarget \<Rightarrow> string list \<Rightarrow> exc + string list" where
  "rename_all lib r repl tg [] = Inr []"
| "rename_all lib r repl tg (p # ps) =
     (case rename lib r p repl tg of
        Inl e \<Rightarrow> Inl e
      | Inr x \<Rightarrow> (case rename_all lib r repl tg ps of Inl e \<Rightarrow> Inl e | Inr xs \<Rightarrow> Inr (x # xs)))"

subsection \<open>The filesystem\<close>

text \<open>
  The filesystem is a map from path strings to directory entries. The files the picker
  offers are not directories, and the entries of the map are of two kinds: a file (or a link
  that leads to one), and a symbolic link whose target is missing. Two different strings
  name two different entries.

  \<^verbatim>\<open>Path(p).exists()\<close> follows links: it holds for a file and does not hold for a
  dangling link, although the directory has an entry there.
\<close>

datatype 'f entry = File 'f | DanglingLink 'f

type_synonym 'f filesystem = "string \<rightharpoonup> 'f entry"

definition path_exists :: "'f filesystem \<Rightarrow> string \<Rightarrow> bool" where
  "path_exists fs p = (case fs p of Some (File f) \<Rightarrow> True | _ \<Rightarrow> False)"



subsection \<open>Conflict detection\<close>

text \<open>
  The loop of \<^verbatim>\<open>_detect_renamed_paths_mistakes\<close> over
  \<^verbatim>\<open>enumerate(zip(picked_paths, renamed_paths))\<close>: \<open>i\<close> is the index, \<open>buckets\<close> the
  dictionary from a renamed path to the indices that produced it, \<open>ms\<close> the mistakes so far.
  A key is in \<open>buckets\<close> exactly when the map has an entry for it.
\<close>

fun detect_loop ::
  "'rx library \<Rightarrow> 'f filesystem \<Rightarrow> nat \<Rightarrow> (string \<times> string) list \<Rightarrow>
   (string \<rightharpoonup> nat list) \<Rightarrow> Mistake list \<Rightarrow> Mistake list" where
  "detect_loop lib fs i [] buckets ms = ms"
| "detect_loop lib fs i ((picked_path, renamed_path) # rest) buckets ms =
     (let ms1 = (case buckets renamed_path of
                   Some ixs \<Rightarrow>
                     (if length ixs = 1 then ms @ [DuplicateMistake (ixs ! 0)] else ms)
                       @ [DuplicateMistake i]
                 | None \<Rightarrow> ms);
          buckets1 = buckets(renamed_path \<mapsto>
                       (case buckets renamed_path of Some ixs \<Rightarrow> ixs | None \<Rightarrow> []) @ [i]);
          ms2 = (if validate_filepath lib renamed_path then ms1
                 else ms1 @ [InvalidDestinationMistake i]);
          ms3 = (if renamed_path \<noteq> picked_path \<and> path_exists fs renamed_path
                 then ms2 @ [ExistsMistake i] else ms2)
      in detect_loop lib fs (Suc i) rest buckets1 ms3)"

definition detect_renamed_paths_mistakes ::
  "'rx library \<Rightarrow> 'f filesystem \<Rightarrow> string list \<Rightarrow> string list \<Rightarrow> Mistake list" where
  "detect_renamed_paths_mistakes lib fs renamed picked =
     detect_loop lib fs 0 (zip picked renamed) Map.empty []"

subsection \<open>Recomputing the outbound properties\<close>

text \<open>
  The first part of \<^verbatim>\<open>recompute\<close>: the compiled pattern, if there is one, and the
  mistakes so far. An empty regex is not compiled. The handler is
  \<^verbatim>\<open>except re.error\<close>: any other exception of \<^verbatim>\<open>re.compile\<close> is not caught.
\<close>

definition parse_regex :: "'rx library \<Rightarrow> MainModel \<Rightarrow> exc + 'rx option \<times> Mistake list" where
  "parse_regex lib s =
     (if regex s \<noteq> [] then
        (case re_compile lib (regex s) of
           Inr r \<Rightarrow> Inr (Some r, [])
         | Inl ReError \<Rightarrow> Inr (None, [InvalidRegexMistake])
         | Inl e \<Rightarrow> Inl e)
      else Inr (None, []))"

text \<open>
  The end of \<^verbatim>\<open>recompute\<close>: the mistakes are published and the apply flag is the truth
  value of the conjunction.
\<close>

definition publish :: "MainModel \<Rightarrow> Mistake list \<Rightarrow> MainModel" where
  "publish s ms =
     s\<lparr>mistakes := ms,
       is_apply_enabled :=
         (regex s \<noteq> [] \<and> replace_pattern s \<noteq> [] \<and> picked_paths s \<noteq> []
          \<and> Some (picked_paths s) \<noteq> renamed_paths s \<and> ms = [])\<rparr>"

text \<open>The first assignment of \<^verbatim>\<open>recompute\<close>: the application state.\<close>

definition entered :: "MainModel \<Rightarrow> MainModel" where
  "entered s = s\<lparr>app_state := (if picked_paths s \<noteq> [] then RENAMING else EMPTY)\<rparr>"

text \<open>
  \<^verbatim>\<open>recompute\<close> returns the exception that left it, if any, and the model as it is then.
  A \<^verbatim>\<open>re.error\<close> in the comprehension is caught: nothing is assigned to
  \<^verbatim>\<open>renamed_paths\<close>. Any other exception, of the compilation or of the comprehension,
  leaves the method before the mistakes and the apply flag are assigned.
\<close>

definition recompute :: "'rx library \<Rightarrow> 'f filesystem \<Rightarrow> MainModel \<Rightarrow> exc option \<times> MainModel" where
  "recompute lib fs s =
     (let s1 = entered s in
      case parse_regex lib s of
        Inl e \<Rightarrow> (Some e, s1)
      | Inr (compiled, ms) \<Rightarrow>
        (case (if replace_pattern s \<noteq> [] then compiled else None) of
           Some r \<Rightarrow>
             (case rename_all lib r (replace_pattern s) (rename_target s) (picked_paths s) of
                Inr rs \<Rightarrow>
                  (None, publish (s1\<lparr>renamed_paths := Some rs\<rparr>)
                           (ms @ detect_renamed_paths_mistakes lib fs rs (picked_paths s)))
              | Inl ReError \<Rightarrow> (None, publish s1 (ms @ [InvalidReplacePatternMistake]))
              | Inl e \<Rightarrow> (Some e, s1))
         | None \<Rightarrow> (None, publish (s1\<lparr>renamed_paths := Some (picked_paths s)\<rparr>) ms)))"

text \<open>The setters of the inbound properties: store the normalised value, then recompute.\<close>

definition picked_paths_setter ::
  "'rx library \<Rightarrow> 'f filesystem \<Rightarrow> string list \<Rightarrow> MainModel \<Rightarrow> exc option \<times> MainModel" where
  "picked_paths_setter lib fs v s = recompute lib fs (s\<lparr>picked_paths := map (normalize lib) v\<rparr>)"

definition regex_setter ::
  "'rx library \<Rightarrow> 'f filesystem \<Rightarrow> string \<Rightarrow> MainModel \<Rightarrow> exc option \<times> MainModel" where
  "regex_setter lib fs v s = recompute lib fs (s\<lparr>regex := normalize lib v\<rparr>)"

definition replace_pattern_setter ::
  "'rx library \<Rightarrow> 'f filesystem \<Rightarrow> string \<Rightarrow> MainModel \<Rightarrow> exc option \<times> MainModel" where
  "replace_pattern_setter lib fs v s = recompute lib fs (s\<lparr>replace_pattern := normalize lib v\<rparr>)"

definition rename_target_setter ::
  "'rx library \<Rightarrow> 'f filesystem \<Rightarrow> RenameTarget \<Rightarrow> MainModel \<Rightarrow> exc option \<times> MainModel" where
  "rename_target_setter lib fs v s = recompute lib fs (s\<lparr>rename_target := v\<rparr>)"

subsection \<open>Apply and undo\<close>




subsection \<open>A small instance of the libraries\<close>

text \<open>
  A fragment of \<^verbatim>\<open>re\<close> on which the model can be run: the patterns are single letters
  or digits, which match themselves, and the replacement templates are free of backslashes,
  so they stand for themselves. On this fragment \<^verbatim>\<open>sub\<close> replaces every occurrence of
  the character. Beyond the fragment, four inputs are given the exception that
  \<^verbatim>\<open>re\<close> raises for them:
  \<^item> the pattern \<^verbatim>\<open>(\<close>, an unterminated group: \<^verbatim>\<open>re.error\<close>;
  \<^item> the pattern \<^verbatim>\<open>a{4294967296}\<close>, a repetition count that is too large:
    \<^verbatim>\<open>OverflowError\<close>;
  \<^item> the template made of a lone backslash, a bad escape: \<^verbatim>\<open>re.error\<close>;
  \<^item> the template that refers to a group by the name \<^verbatim>\<open>a\<close> (a backslash, the letter
    \<^verbatim>\<open>g\<close> and the name in angle brackets), a name that a one-character pattern does
    not have: \<^verbatim>\<open>IndexError\<close>.
  No other pattern and no other template with a backslash is used below; the instance
  answers \<^verbatim>\<open>re.error\<close> for them. ASCII text is its own NFC form, the paths used below
  are valid file paths, and no rename is refused.
\<close>

definition literal_char :: "char \<Rightarrow> bool" where
  "literal_char c = (c \<in> set (''abcdefghijklmnopqrstuvwxyz'' @ ''0123456789''))"

definition demo_compile :: "string \<Rightarrow> exc + char" where
  "demo_compile p =
     (if p = ''a{4294967296}'' then Inl OverflowError
      else (case p of
              [c] \<Rightarrow> if literal_char c then Inr c else Inl ReError
            | _ \<Rightarrow> Inl ReError))"

definition demo_sub :: "char \<Rightarrow> string \<Rightarrow> string \<Rightarrow> exc + string" where
  "demo_sub c repl s =
     (if repl = CHR 0x5C # ''g<a>'' then Inl IndexError
      else if CHR 0x5C \<in> set repl then Inl ReError
      else Inr (concat (map (\<lambda>x. if x = c then repl else [x]) s)))"

definition demo :: "char library" where
  "demo = \<lparr>re_compile = demo_compile, re_sub = demo_sub,
           normalize = (\<lambda>s. s), validate_filepath = (\<lambda>p. p \<noteq> [])\<rparr>"


subsection \<open>The conflict detection, step by step\<close>

text \<open>
  The spec's account of duplicate detection, index by index: \<open>earlier_same rs i\<close> are the
  indices before \<open>i\<close> that produced the renamed path of \<open>i\<close>. When there is none, nothing
  is emitted at \<open>i\<close>. When there is exactly one, the value is seen for the second time: a
  \<open>Duplicate\<close> for that first index, then one for \<open>i\<close>. When there are more, only the one
  for \<open>i\<close>.
\<close>

definition earlier_same :: "string list \<Rightarrow> nat \<Rightarrow> nat list" where
  "earlier_same rs i = filter (\<lambda>j. rs ! j = rs ! i) [0..<i]"

definition duplicates_at :: "string list \<Rightarrow> nat \<Rightarrow> Mistake list" where
  "duplicates_at rs i =
     (let e = earlier_same rs i in
      if e = [] then []
      else (if length e = 1 then [DuplicateMistake (hd e)] else []) @ [DuplicateMistake i])"

fun is_duplicate :: "Mistake \<Rightarrow> bool" where
  "is_duplicate (DuplicateMistake i) = True"
| "is_duplicate m = False"

text \<open>All the mistakes of index \<open>i\<close>, in the order of the loop body.\<close>

definition mistakes_at ::
  "'rx library \<Rightarrow> 'f filesystem \<Rightarrow> string list \<Rightarrow> string list \<Rightarrow> nat \<Rightarrow> Mistake list" where
  "mistakes_at lib fs rs ps i =
     duplicates_at rs i
     @ (if validate_filepath lib (rs ! i) then [] else [InvalidDestinationMistake i])
     @ (if rs ! i \<noteq> ps ! i \<and> path_exists fs (rs ! i) then [ExistsMistake i] else [])"

text \<open>The dictionary \<open>buckets\<close> when the loop reaches index \<open>i\<close>.\<close>

definition buckets_at :: "string list \<Rightarrow> nat \<Rightarrow> (string \<rightharpoonup> nat list)" where
  "buckets_at rs i =
     (\<lambda>v. let e = filter (\<lambda>j. rs ! j = v) [0..<i] in if e = [] then None else Some e)"

subsection \<open>Concrete models\<close>

text \<open>A model with nothing picked and nothing typed, the target at its default.\<close>

definition fresh_model :: MainModel where
  "fresh_model =
     \<lparr>picked_paths = [], regex = [], replace_pattern = [], rename_target = NAME,
      renamed_paths = None, mistakes = [], is_apply_enabled = False,
      is_undo_enabled = False, app_state = EMPTY\<rparr>"

definition one_file :: MainModel where
  "one_file =
     fresh_model\<lparr>picked_paths := [''/tmp/a.txt''], regex := ''a'', replace_pattern := ''b''\<rparr>"

definition one_file_renamed :: MainModel where
  "one_file_renamed =
     \<lparr>picked_paths = [''/tmp/a.txt''], regex = ''a'', replace_pattern = ''b'',
      rename_target = NAME, renamed_paths = Some [''/tmp/b.txt''], mistakes = [],
      is_apply_enabled = True, is_undo_enabled = False, app_state = RENAMING\<rparr>"

definition no_regex :: MainModel where
  "no_regex = fresh_model\<lparr>picked_paths := [''/tmp/a.txt''], replace_pattern := ''b''\<rparr>"

definition twice_renamed :: "string list" where
  "twice_renamed = [''/tmp/x'', ''/tmp/x'']"

definition twice_picked :: "string list" where
  "twice_picked = [''/tmp/a'', ''/tmp/b'']"


text \<open>
  The string the pattern is applied to: the argument of \<^verbatim>\<open>regex.sub\<close> in
  \<^verbatim>\<open>_rename_using_full_path\<close>, \<^verbatim>\<open>_rename_using_name\<close> and
  \<^verbatim>\<open>_rename_using_stem\<close>.
\<close>

definition subject :: "RenameTarget \<Rightarrow> string \<Rightarrow> string" where
  "subject tg path =
     (case tg of FULL \<Rightarrow> path | NAME \<Rightarrow> name (parse_path path) | STEM \<Rightarrow> stem (parse_path path))"

text \<open>
  The file of \<open>one_file\<close> with a repetition count that is too large as regex, and with no
  replacement.
\<close>

definition overflow_regex :: MainModel where
  "overflow_regex = one_file\<lparr>regex := ''a{4294967296}''\<rparr>"

definition no_replacement :: MainModel where
  "no_replacement = one_file\<lparr>replace_pattern := []\<rparr>"

text \<open>
  The model after the recompute of \<open>one_file\<close>, with its renamed path published, in which
  the replace pattern then becomes a lone backslash, or a reference to an unknown group name.
\<close>

definition bad_replacement :: MainModel where
  "bad_replacement = one_file_renamed\<lparr>replace_pattern := [CHR 0x5C]\<rparr>"

definition unknown_group :: MainModel where
  "unknown_group = one_file_renamed\<lparr>replace_pattern := CHR 0x5C # ''g<a>''\<rparr>"

text \<open>
  Three assignments in a row, on a fresh model: the regex \<^verbatim>\<open>a\<close>, a lone backslash as
  replace pattern, then one picked path.
\<close>

definition stale1 :: MainModel where
  "stale1 = snd (regex_setter demo (Map.empty :: nat filesystem) ''a'' fresh_model)"

definition stale2 :: MainModel where
  "stale2 = snd (replace_pattern_setter demo (Map.empty :: nat filesystem) [CHR 0x5C] stale1)"

definition stale3 :: "exc option \<times> MainModel" where
  "stale3 = picked_paths_setter demo (Map.empty :: nat filesystem) [''/tmp/a.txt''] stale2"

definition two_files :: MainModel where
  "two_files = one_file\<lparr>picked_paths := [''/tmp/b.txt'', ''/tmp/a.txt'']\<rparr>"

definition two_files_renamed :: MainModel where
  "two_files_renamed =
     \<lparr>picked_paths = [''/tmp/b.txt'', ''/tmp/a.txt''], regex = ''a'', replace_pattern = ''b'',
      rename_target = NAME, renamed_paths = Some [''/tmp/b.txt'', ''/tmp/b.txt''],
      mistakes = [DuplicateMistake 0, DuplicateMistake 1],
      is_apply_enabled = False, is_undo_enabled = False, app_state = RENAMING\<rparr>"








text \<open>
  A string that is one component of a path: not empty, without the separator, and not the
  dot. A path is well formed when its root is one of the three roots and its components are
  such strings; these are the paths \<^verbatim>\<open>pathlib\<close> builds.
\<close>

definition component :: "string \<Rightarrow> bool" where
  "component n = (n \<noteq> [] \<and> CHR ''/'' \<notin> set n \<and> n \<noteq> ''.'')"

definition well_formed :: "PurePath \<Rightarrow> bool" where
  "well_formed p =
     ((path_root p = [] \<or> path_root p = ''/'' \<or> path_root p = ''//'')
      \<and> list_all component (path_tail p))"

section \<open>Properties\<close>

subsection \<open>The branches of recompute\<close>

lemma rename_all_length:
  "rename_all lib r repl tg ps = Inr rs \<Longrightarrow> length rs = length ps"
  by (induction ps arbitrary: rs) (auto split: sum.splits)

lemma rename_all_nth:
  "rename_all lib r repl tg ps = Inr rs \<Longrightarrow> i < length ps \<Longrightarrow>
   rename lib r (ps ! i) repl tg = Inr (rs ! i)"
proof (induction ps arbitrary: rs i)
  case Nil
  then show ?case by simp
next
  case (Cons p ps)
  then show ?case by (cases i) (auto split: sum.splits)
qed

text \<open>
  A \<^verbatim>\<open>recompute\<close> that returns took one of three ways: every path was renamed and the
  conflicts were looked for; the substitution raised \<^verbatim>\<open>re.error\<close>; or nothing was
  substituted and the picked paths were copied.
\<close>

lemma recompute_cases:
  assumes "recompute lib fs s = (None, s')"
  shows "(\<exists>r rs. regex s \<noteq> [] \<and> re_compile lib (regex s) = Inr r \<and> replace_pattern s \<noteq> []
            \<and> rename_all lib r (replace_pattern s) (rename_target s) (picked_paths s) = Inr rs
            \<and> s' = publish (entered s\<lparr>renamed_paths := Some rs\<rparr>)
                     (detect_renamed_paths_mistakes lib fs rs (picked_paths s)))
       \<or> (\<exists>r. regex s \<noteq> [] \<and> re_compile lib (regex s) = Inr r \<and> replace_pattern s \<noteq> []
            \<and> rename_all lib r (replace_pattern s) (rename_target s) (picked_paths s) = Inl ReError
            \<and> s' = publish (entered s) [InvalidReplacePatternMistake])
       \<or> ((regex s = [] \<or> re_compile lib (regex s) = Inl ReError \<or> replace_pattern s = [])
            \<and> s' = publish (entered s\<lparr>renamed_paths := Some (picked_paths s)\<rparr>)
                     (if regex s \<noteq> [] \<and> re_compile lib (regex s) = Inl ReError
                      then [InvalidRegexMistake] else []))"
  using assms
  unfolding recompute_def parse_regex_def Let_def
  by (auto split: if_splits option.splits sum.splits exc.splits)

lemma one_file_recompute:
  "recompute demo (Map.empty :: nat filesystem) one_file = (None, one_file_renamed)"
  by code_simp

subsection \<open>The apply flag\<close>

text \<open>
  C1. After a recompute that returns, the apply flag holds if and only if the regex is not
  empty, the replace pattern is not empty, at least one path is picked, some entry of the
  renamed paths differs from the picked path at the same index, and there is no mistake.
\<close>

theorem apply_enabled_iff:
  assumes "recompute lib fs s = (None, s')"
  shows "is_apply_enabled s' \<longleftrightarrow>
           regex s' \<noteq> [] \<and> replace_pattern s' \<noteq> [] \<and> picked_paths s' \<noteq> []
           \<and> (\<exists>rs. renamed_paths s' = Some rs
                 \<and> (\<exists>i<length (picked_paths s'). rs ! i \<noteq> picked_paths s' ! i))
           \<and> mistakes s' = []"
proof -
  from recompute_cases[OF assms]
  consider (renamed) r rs where
      "rename_all lib r (replace_pattern s) (rename_target s) (picked_paths s) = Inr rs"
      "s' = publish (entered s\<lparr>renamed_paths := Some rs\<rparr>)
                     (detect_renamed_paths_mistakes lib fs rs (picked_paths s))"
    | (stale) "s' = publish (entered s) [InvalidReplacePatternMistake]"
    | (copied) ms where "s' = publish (entered s\<lparr>renamed_paths := Some (picked_paths s)\<rparr>) ms"
    by blast
  then show ?thesis
  proof cases
    case renamed
    have len: "length rs = length (picked_paths s)"
      using renamed(1) by (rule rename_all_length)
    have "picked_paths s \<noteq> rs \<longleftrightarrow> (\<exists>i<length (picked_paths s). rs ! i \<noteq> picked_paths s ! i)"
      using len list_eq_iff_nth_eq[of "picked_paths s" rs] by metis
    then show ?thesis
      unfolding renamed(2) publish_def entered_def by simp
  next
    case stale
    then show ?thesis unfolding publish_def entered_def by simp
  next
    case copied
    then show ?thesis unfolding publish_def entered_def by simp
  qed
qed

theorem apply_enabled_iff_witness:
  "recompute demo (Map.empty :: nat filesystem) one_file = (None, one_file_renamed)
   \<and> is_apply_enabled one_file_renamed \<and> mistakes one_file_renamed = []
   \<and> regex one_file_renamed \<noteq> [] \<and> replace_pattern one_file_renamed \<noteq> []
   \<and> (\<exists>rs. renamed_paths one_file_renamed = Some rs
         \<and> (\<exists>i<length (picked_paths one_file_renamed).
               rs ! i \<noteq> picked_paths one_file_renamed ! i))"
  using apply_enabled_iff[OF one_file_recompute] one_file_recompute
  by (simp add: one_file_renamed_def)

subsection \<open>An empty regex\<close>

text \<open>
  C6. When the regex is empty, recompute returns, the renamed paths it publishes are the
  picked paths, and the list of mistakes is empty, whatever the picked paths are.
\<close>

theorem recompute_empty_regex:
  assumes "regex s = []"
  shows "\<exists>s'. recompute lib fs s = (None, s') \<and> picked_paths s' = picked_paths s
            \<and> renamed_paths s' = Some (picked_paths s) \<and> mistakes s' = []"
  using assms unfolding recompute_def parse_regex_def publish_def entered_def Let_def by simp

theorem recompute_empty_regex_witness:
  "regex no_regex = []
   \<and> fst (recompute demo (Map.empty :: nat filesystem) no_regex) = None
   \<and> renamed_paths (snd (recompute demo (Map.empty :: nat filesystem) no_regex))
       = Some [''/tmp/a.txt'']
   \<and> mistakes (snd (recompute demo (Map.empty :: nat filesystem) no_regex)) = []"
proof -
  have h: "regex no_regex = []" by (simp add: no_regex_def fresh_model_def)
  have p: "picked_paths no_regex = [''/tmp/a.txt'']" by (simp add: no_regex_def fresh_model_def)
  from recompute_empty_regex[OF h, of demo "Map.empty :: nat filesystem"] h p
  show ?thesis by auto
qed

subsection \<open>Conflict detection\<close>

lemma buckets_at_0: "buckets_at rs 0 = Map.empty"
  by (simp add: buckets_at_def)

lemma buckets_at_Suc:
  "buckets_at rs (Suc i) =
     (buckets_at rs i)(rs ! i \<mapsto>
        (case buckets_at rs i (rs ! i) of Some ixs \<Rightarrow> ixs | None \<Rightarrow> []) @ [i])"
  by (rule ext) (simp add: buckets_at_def Let_def)

lemma detect_step:
  "(case buckets_at rs i (rs ! i) of
       Some ixs \<Rightarrow>
         (if length ixs = 1 then ms @ [DuplicateMistake (ixs ! 0)] else ms) @ [DuplicateMistake i]
     | None \<Rightarrow> ms) = ms @ duplicates_at rs i"
  by (auto simp: buckets_at_def duplicates_at_def earlier_same_def Let_def hd_conv_nth)

text \<open>
  The loop, started at index \<open>i\<close> with the dictionary of the indices before \<open>i\<close>, appends
  the mistakes of the remaining indices in order.
\<close>

lemma detect_loop_eq:
  assumes "n = min (length ps) (length rs)" "i \<le> n"
  shows "detect_loop lib fs i (drop i (zip ps rs)) (buckets_at rs i) ms
         = ms @ concat (map (mistakes_at lib fs rs ps) [i..<n])"
  using assms(2)
proof (induction "n - i" arbitrary: i ms)
  case 0
  then show ?case using assms(1) by simp
next
  case (Suc k)
  then have lt: "i < n" by simp
  then have zl: "i < length (zip ps rs)" using assms(1) by simp
  have d: "drop i (zip ps rs) = (ps ! i, rs ! i) # drop (Suc i) (zip ps rs)"
    using Cons_nth_drop_Suc[OF zl] zl by simp
  have u: "[i..<n] = i # [Suc i..<n]" using lt by (simp add: upt_conv_Cons)
  have k: "k = n - Suc i" using Suc(2) by simp
  have le: "Suc i \<le> n" using lt by simp
  show ?case
    unfolding d u
    apply (simp only: detect_loop.simps Let_def detect_step buckets_at_Suc[symmetric])
    apply (subst Suc(1)[OF k le])
    apply (simp add: mistakes_at_def)
    done
qed

lemma detect_eq:
  "detect_renamed_paths_mistakes lib fs rs ps
   = concat (map (mistakes_at lib fs rs ps) [0..<min (length ps) (length rs)])"
  using detect_loop_eq[of "min (length ps) (length rs)" ps rs 0 lib fs "[]"]
  by (simp add: detect_renamed_paths_mistakes_def buckets_at_0)

lemma filter_dup_at: "filter is_duplicate (mistakes_at lib fs rs ps i) = duplicates_at rs i"
  by (simp add: mistakes_at_def duplicates_at_def Let_def)


lemma filter_upt_single:
  assumes "i < k" "P i" "\<forall>j<k. P j \<longrightarrow> j = i"
  shows "filter P [0..<k] = [i]"
proof -
  have s: "[0..<k] = [0..<i] @ i # [Suc i..<k]"
  proof -
    have "[0..<i + (k - i)] = [0..<i] @ [i..<i + (k - i)]" by (rule upt_add_eq_append) simp
    then have "[0..<k] = [0..<i] @ [i..<k]" using assms(1) by simp
    then show ?thesis using assms(1) by (simp add: upt_conv_Cons)
  qed
  have n: "\<And>j. j < k \<Longrightarrow> j \<noteq> i \<Longrightarrow> \<not> P j" using assms(3) by blast
  have a: "filter P [0..<i] = []"
    unfolding filter_empty_conv
  proof
    fix j assume "j \<in> set [0..<i]"
    then have "j < k" "j \<noteq> i" using assms(1) by simp_all
    then show "\<not> P j" by (rule n)
  qed
  have b: "filter P [Suc i..<k] = []"
    unfolding filter_empty_conv
  proof
    fix j assume "j \<in> set [Suc i..<k]"
    then have "j < k" "j \<noteq> i" by simp_all
    then show "\<not> P j" by (rule n)
  qed
  show ?thesis unfolding s using a b assms(2) by simp
qed

lemma dup_later:
  assumes "i < j" "rs ! i = rs ! j"
  shows "DuplicateMistake j \<in> set (duplicates_at rs j)"
proof -
  have "i \<in> set (earlier_same rs j)" using assms by (simp add: earlier_same_def)
  then have "earlier_same rs j \<noteq> []" by auto
  then show ?thesis by (simp add: duplicates_at_def Let_def)
qed

text \<open>
  The first index of a value that recurs gets its mistake at the second index of the value,
  which is the least later index with the same renamed path.
\<close>

lemma dup_first:
  assumes "i < j" "rs ! i = rs ! j"
  shows "\<exists>k\<le>j. DuplicateMistake i \<in> set (duplicates_at rs k)"
proof (cases "earlier_same rs i = []")
  case False
  then have "DuplicateMistake i \<in> set (duplicates_at rs i)"
    by (simp add: duplicates_at_def Let_def)
  then show ?thesis using assms(1) by (intro exI[of _ i]) simp
next
  case True
  define k where "k = (LEAST k. i < k \<and> rs ! k = rs ! i)"
  have ex: "i < j \<and> rs ! j = rs ! i" using assms by simp
  have k1: "i < k \<and> rs ! k = rs ! i" unfolding k_def by (rule LeastI[of _ j]) (rule ex)
  have k2: "k \<le> j" unfolding k_def by (rule Least_le) (rule ex)
  have k3: "\<And>m. i < m \<Longrightarrow> rs ! m = rs ! i \<Longrightarrow> k \<le> m"
    unfolding k_def by (rule Least_le) simp
  have none: "\<And>m. m < i \<Longrightarrow> rs ! m \<noteq> rs ! i"
    using True by (auto simp: earlier_same_def filter_empty_conv)
  have "\<forall>m<k. rs ! m = rs ! k \<longrightarrow> m = i"
  proof (intro allI impI)
    fix m assume m: "m < k" "rs ! m = rs ! k"
    show "m = i"
    proof (rule ccontr)
      assume "m \<noteq> i"
      then consider "m < i" | "i < m" by linarith
      then show False
      proof cases
        case 1 then show ?thesis using none m k1 by simp
      next
        case 2 then show ?thesis using k3[of m] m k1 by simp
      qed
    qed
  qed
  then have "earlier_same rs k = [i]"
    unfolding earlier_same_def using k1 by (intro filter_upt_single) auto
  then have "DuplicateMistake i \<in> set (duplicates_at rs k)" by (simp add: duplicates_at_def)
  then show ?thesis using k2 by blast
qed

text \<open>
  C7. The \<open>Duplicate\<close> mistakes of the conflict detection, in the order they are emitted,
  are those of the step-by-step account: at an index whose renamed path was produced by
  exactly one earlier index, one for that first index and then one for the index itself; at
  an index whose renamed path was produced by several earlier indices, one for the index
  itself; at any other index, none. In particular, when two indices have the same renamed
  path, both get a \<open>Duplicate\<close> mistake.
\<close>

theorem duplicate_mistakes:
  "filter is_duplicate (detect_renamed_paths_mistakes lib fs rs ps)
     = concat (map (duplicates_at rs) [0..<min (length ps) (length rs)])
   \<and> (\<forall>i j. i < j \<and> j < min (length ps) (length rs) \<and> rs ! i = rs ! j \<longrightarrow>
        DuplicateMistake i \<in> set (detect_renamed_paths_mistakes lib fs rs ps)
        \<and> DuplicateMistake j \<in> set (detect_renamed_paths_mistakes lib fs rs ps))"
proof (intro conjI allI impI)
  show "filter is_duplicate (detect_renamed_paths_mistakes lib fs rs ps)
     = concat (map (duplicates_at rs) [0..<min (length ps) (length rs)])"
    unfolding detect_eq by (simp add: filter_concat comp_def filter_dup_at)
next
  fix i j assume h: "i < j \<and> j < min (length ps) (length rs) \<and> rs ! i = rs ! j"
  obtain k where k: "k \<le> j" "DuplicateMistake i \<in> set (duplicates_at rs k)"
    using dup_first[of i j rs] h by blast
  have "DuplicateMistake i \<in> set (mistakes_at lib fs rs ps k)"
    using k(2) by (simp add: mistakes_at_def)
  then show "DuplicateMistake i \<in> set (detect_renamed_paths_mistakes lib fs rs ps)"
    unfolding detect_eq using k(1) h by auto
next
  fix i j assume h: "i < j \<and> j < min (length ps) (length rs) \<and> rs ! i = rs ! j"
  have "DuplicateMistake j \<in> set (mistakes_at lib fs rs ps j)"
    using dup_later[of i j rs] h by (simp add: mistakes_at_def)
  then show "DuplicateMistake j \<in> set (detect_renamed_paths_mistakes lib fs rs ps)"
    unfolding detect_eq using h by auto
qed

theorem duplicate_mistakes_witness:
  "(0::nat) < 1 \<and> 1 < min (length twice_picked) (length twice_renamed)
   \<and> twice_renamed ! 0 = twice_renamed ! 1
   \<and> DuplicateMistake 0
       \<in> set (detect_renamed_paths_mistakes demo (Map.empty :: nat filesystem) twice_renamed twice_picked)
   \<and> DuplicateMistake 1
       \<in> set (detect_renamed_paths_mistakes demo (Map.empty :: nat filesystem) twice_renamed twice_picked)
   \<and> filter is_duplicate
       (detect_renamed_paths_mistakes demo (Map.empty :: nat filesystem) twice_renamed twice_picked)
       = [DuplicateMistake 0, DuplicateMistake 1]"
proof -
  have h: "(0::nat) < 1 \<and> 1 < min (length twice_picked) (length twice_renamed)
           \<and> twice_renamed ! 0 = twice_renamed ! 1"
    by (simp add: twice_picked_def twice_renamed_def)
  have d: "concat (map (duplicates_at twice_renamed) [0..<min (length twice_picked) (length twice_renamed)])
           = [DuplicateMistake 0, DuplicateMistake 1]"
    by code_simp
  from duplicate_mistakes[of demo "Map.empty :: nat filesystem" twice_renamed twice_picked] h d
  show ?thesis by metis
qed



subsection \<open>Regex and replace pattern\<close>

lemma rename_sub_raises:
  "re_sub lib r repl (subject tg p) = Inl e \<Longrightarrow> rename lib r p repl tg = Inl e"
  by (cases tg)
     (simp_all add: subject_def rename_using_full_path_def rename_using_name_def
        rename_using_stem_def Let_def)

lemma rename_all_sub_raises:
  assumes "ps \<noteq> []" "\<forall>x. re_sub lib r repl x = Inl e"
  shows "rename_all lib r repl tg ps = Inl e"
proof (cases ps)
  case Nil
  then show ?thesis using assms(1) by simp
next
  case (Cons p qs)
  have "rename lib r p repl tg = Inl e" using assms(2) by (intro rename_sub_raises) simp
  then show ?thesis using Cons by simp
qed

text \<open>
  What the handler of \<^verbatim>\<open>recompute\<close> covers: when \<^verbatim>\<open>re.compile\<close> raises
  \<^verbatim>\<open>re.error\<close>, recompute returns with exactly one mistake, \<open>InvalidRegex\<close>, and no
  substitution is attempted.
\<close>

lemma invalid_regex_re_error:
  assumes "regex s \<noteq> []" "re_compile lib (regex s) = Inl ReError"
  shows "(\<exists>s'. recompute lib fs s = (None, s') \<and> mistakes s' = [InvalidRegexMistake]
            \<and> renamed_paths s' = Some (picked_paths s) \<and> \<not> is_apply_enabled s')
       \<and> (\<forall>f. recompute (lib\<lparr>re_sub := f\<rparr>) fs s = recompute lib fs s)"
  using assms unfolding recompute_def parse_regex_def publish_def entered_def Let_def by simp

text \<open>
  What it misses: any other exception of \<^verbatim>\<open>re.compile\<close> leaves recompute, after the
  application state is assigned and before anything else is.
\<close>

lemma compile_raises:
  assumes "regex s \<noteq> []" "re_compile lib (regex s) = Inl e" "e \<noteq> ReError"
  shows "recompute lib fs s = (Some e, entered s)"
  using assms unfolding recompute_def parse_regex_def Let_def
  by (cases e) simp_all

text \<open>
  C5. The claim does not hold of the code: the regex \<^verbatim>\<open>a{4294967296}\<close> is not empty and
  fails to compile, with \<^verbatim>\<open>OverflowError\<close>; the handler catches \<^verbatim>\<open>re.error\<close> only,
  the exception leaves recompute, and no \<open>InvalidRegex\<close> mistake is published: the mistakes,
  the renamed paths and the apply flag stay as they were.
\<close>

theorem overflow_regex_not_caught:
  "regex overflow_regex \<noteq> []
   \<and> re_compile demo (regex overflow_regex) = Inl OverflowError
   \<and> fst (recompute demo (Map.empty :: nat filesystem) overflow_regex) = Some OverflowError
   \<and> mistakes (snd (recompute demo (Map.empty :: nat filesystem) overflow_regex)) = []
   \<and> renamed_paths (snd (recompute demo (Map.empty :: nat filesystem) overflow_regex)) = None"
  by code_simp

text \<open>
  C10. When the regex is not empty and compiles, and the replace pattern is empty,
  recompute returns, publishes the picked paths as renamed paths and no mistake, and the
  apply flag is false; no substitution is attempted: the outcome is the same whatever
  \<^verbatim>\<open>sub\<close> would do.
\<close>

theorem empty_replacement:
  assumes "regex s \<noteq> []" "re_compile lib (regex s) = Inr r" "replace_pattern s = []"
  shows "(\<exists>s'. recompute lib fs s = (None, s') \<and> renamed_paths s' = Some (picked_paths s)
            \<and> mistakes s' = [] \<and> \<not> is_apply_enabled s')
       \<and> (\<forall>f. recompute (lib\<lparr>re_sub := f\<rparr>) fs s = recompute lib fs s)"
  using assms unfolding recompute_def parse_regex_def publish_def entered_def Let_def by simp

theorem empty_replacement_witness:
  "regex no_replacement \<noteq> [] \<and> re_compile demo (regex no_replacement) = Inr (CHR ''a'')
   \<and> replace_pattern no_replacement = []
   \<and> fst (recompute demo (Map.empty :: nat filesystem) no_replacement) = None
   \<and> mistakes (snd (recompute demo (Map.empty :: nat filesystem) no_replacement)) = []
   \<and> renamed_paths (snd (recompute demo (Map.empty :: nat filesystem) no_replacement))
       = Some [''/tmp/a.txt'']
   \<and> \<not> is_apply_enabled (snd (recompute demo (Map.empty :: nat filesystem) no_replacement))"
proof -
  have h: "regex no_replacement \<noteq> []"
     "re_compile demo (regex no_replacement) = Inr (CHR ''a'')"
     "replace_pattern no_replacement = []"
    by (simp_all add: no_replacement_def one_file_def fresh_model_def demo_def
          demo_compile_def literal_char_def)
  have p: "picked_paths no_replacement = [''/tmp/a.txt'']"
    by (simp add: no_replacement_def one_file_def fresh_model_def)
  from empty_replacement[OF h, of "Map.empty :: nat filesystem"] h p
  show ?thesis by auto
qed

text \<open>
  C3, as it is stated, fails where it says that the renamed paths are left empty or
  undefined: the handler assigns nothing to them, so the list that the last successful
  recompute published stays published. Here \<^verbatim>\<open>/tmp/a.txt\<close> was renamed with the
  replacement \<^verbatim>\<open>b\<close>; the replacement then becomes a lone backslash, and
  \<^verbatim>\<open>/tmp/b.txt\<close> is still the renamed path.
\<close>

theorem invalid_replace_pattern_counterexample:
  "recompute demo (Map.empty :: nat filesystem) one_file = (None, one_file_renamed)
   \<and> fst (replace_pattern_setter demo (Map.empty :: nat filesystem) [CHR 0x5C] one_file_renamed)
       = None
   \<and> mistakes (snd (replace_pattern_setter demo (Map.empty :: nat filesystem) [CHR 0x5C]
                      one_file_renamed)) = [InvalidReplacePatternMistake]
   \<and> renamed_paths (snd (replace_pattern_setter demo (Map.empty :: nat filesystem) [CHR 0x5C]
                      one_file_renamed)) = Some [''/tmp/b.txt'']"
  by code_simp

text \<open>
  The handler catches \<^verbatim>\<open>re.error\<close> only. A template that refers to a group name the
  pattern does not have makes \<^verbatim>\<open>sub\<close> raise \<^verbatim>\<open>IndexError\<close>, which leaves
  recompute: no mistake is published.
\<close>

lemma unknown_group_not_caught:
  "recompute demo (Map.empty :: nat filesystem) unknown_group
   = (Some IndexError, entered unknown_group)"
  by code_simp

text \<open>
  C3, amended. When the regex compiles, the replace pattern is not empty and the
  substitution in some picked path raises \<^verbatim>\<open>re.error\<close>, recompute returns with exactly
  one mistake, \<open>InvalidReplacePattern\<close>, and assigns nothing to the renamed paths: the
  property keeps the value it had, be it a list that an earlier recompute published, and no
  part of the new list is published. The last hypothesis is a fact about \<^verbatim>\<open>re\<close>: the
  template is checked against the pattern before the subject is looked at, so whether
  \<^verbatim>\<open>sub\<close> raises \<^verbatim>\<open>re.error\<close> does not depend on the subject.
\<close>

theorem invalid_replace_pattern:
  assumes "regex s \<noteq> []" "re_compile lib (regex s) = Inr r" "replace_pattern s \<noteq> []"
    and "\<exists>p\<in>set (picked_paths s).
           re_sub lib r (replace_pattern s) (subject (rename_target s) p) = Inl ReError"
    and "\<forall>x y. re_sub lib r (replace_pattern s) x = Inl ReError
           \<longrightarrow> re_sub lib r (replace_pattern s) y = Inl ReError"
  shows "\<exists>s'. recompute lib fs s = (None, s') \<and> mistakes s' = [InvalidReplacePatternMistake]
            \<and> renamed_paths s' = renamed_paths s \<and> \<not> is_apply_enabled s'"
proof -
  have ne: "picked_paths s \<noteq> []" using assms(4) by auto
  have "\<forall>x. re_sub lib r (replace_pattern s) x = Inl ReError" using assms(4,5) by blast
  then have "rename_all lib r (replace_pattern s) (rename_target s) (picked_paths s) = Inl ReError"
    using ne by (intro rename_all_sub_raises)
  then show ?thesis
    using assms(1-3) unfolding recompute_def parse_regex_def publish_def entered_def Let_def
    by simp
qed

theorem invalid_replace_pattern_witness:
  "regex bad_replacement \<noteq> [] \<and> re_compile demo (regex bad_replacement) = Inr (CHR ''a'')
   \<and> replace_pattern bad_replacement \<noteq> []
   \<and> re_sub demo (CHR ''a'') (replace_pattern bad_replacement)
        (subject (rename_target bad_replacement) ''/tmp/a.txt'') = Inl ReError
   \<and> renamed_paths bad_replacement = Some [''/tmp/b.txt'']
   \<and> fst (recompute demo (Map.empty :: nat filesystem) bad_replacement) = None
   \<and> mistakes (snd (recompute demo (Map.empty :: nat filesystem) bad_replacement))
       = [InvalidReplacePatternMistake]
   \<and> renamed_paths (snd (recompute demo (Map.empty :: nat filesystem) bad_replacement))
       = Some [''/tmp/b.txt'']"
proof -
  have h: "regex bad_replacement \<noteq> []"
     "re_compile demo (regex bad_replacement) = Inr (CHR ''a'')"
     "replace_pattern bad_replacement \<noteq> []"
    by (simp_all add: bad_replacement_def one_file_renamed_def demo_def demo_compile_def
          literal_char_def)
  have a: "\<forall>x. re_sub demo (CHR ''a'') (replace_pattern bad_replacement) x = Inl ReError"
    by (simp add: bad_replacement_def one_file_renamed_def demo_def demo_sub_def)
  have p: "picked_paths bad_replacement = [''/tmp/a.txt'']"
          "renamed_paths bad_replacement = Some [''/tmp/b.txt'']"
    by (simp_all add: bad_replacement_def one_file_renamed_def)
  have e: "\<exists>p\<in>set (picked_paths bad_replacement).
            re_sub demo (CHR ''a'') (replace_pattern bad_replacement)
              (subject (rename_target bad_replacement) p) = Inl ReError"
    using a p by simp
  have u: "\<forall>x y. re_sub demo (CHR ''a'') (replace_pattern bad_replacement) x = Inl ReError
             \<longrightarrow> re_sub demo (CHR ''a'') (replace_pattern bad_replacement) y = Inl ReError"
    using a by simp
  from invalid_replace_pattern[OF h e u, of "Map.empty :: nat filesystem"] h a p
  show ?thesis by auto
qed

subsection \<open>The renamed paths, entry by entry\<close>

text \<open>
  C2, as it is stated, fails after a recompute that caught \<^verbatim>\<open>re.error\<close>: the renamed
  paths are those of an earlier recompute. Here one path is picked and the list of renamed
  paths is empty.
\<close>

theorem renamed_paths_stale_counterexample:
  "fst stale3 = None \<and> picked_paths (snd stale3) = [''/tmp/a.txt'']
   \<and> renamed_paths (snd stale3) = Some []"
  by code_simp

lemma recompute_pointwise:
  assumes "recompute lib fs s = (None, t)" "InvalidReplacePatternMistake \<notin> set (mistakes t)"
  shows "picked_paths t = picked_paths s \<and>
     (\<exists>rs. renamed_paths t = Some rs \<and> length rs = length (picked_paths s)
        \<and> ((\<exists>r. regex s \<noteq> [] \<and> re_compile lib (regex s) = Inr r \<and> replace_pattern s \<noteq> []
               \<and> (\<forall>i<length rs. rename lib r (picked_paths s ! i) (replace_pattern s) (rename_target s)
                                  = Inr (rs ! i)))
            \<or> ((regex s = [] \<or> re_compile lib (regex s) = Inl ReError \<or> replace_pattern s = [])
               \<and> rs = picked_paths s)))"
proof -
  from recompute_cases[OF assms(1)]
  consider (renamed) r rs where
      "regex s \<noteq> []" "re_compile lib (regex s) = Inr r" "replace_pattern s \<noteq> []"
      "rename_all lib r (replace_pattern s) (rename_target s) (picked_paths s) = Inr rs"
      "t = publish (entered s\<lparr>renamed_paths := Some rs\<rparr>)
                     (detect_renamed_paths_mistakes lib fs rs (picked_paths s))"
    | (stale) "t = publish (entered s) [InvalidReplacePatternMistake]"
    | (copied) ms where "regex s = [] \<or> re_compile lib (regex s) = Inl ReError \<or> replace_pattern s = []"
       "t = publish (entered s\<lparr>renamed_paths := Some (picked_paths s)\<rparr>) ms"
    by blast
  then show ?thesis
  proof cases
    case renamed
    have len: "length rs = length (picked_paths s)"
      using renamed(4) by (rule rename_all_length)
    have nth: "\<forall>i<length rs. rename lib r (picked_paths s ! i) (replace_pattern s) (rename_target s)
                                  = Inr (rs ! i)"
      using rename_all_nth[OF renamed(4)] len by simp
    have "picked_paths t = picked_paths s" "renamed_paths t = Some rs"
      unfolding renamed(5) publish_def entered_def by simp_all
    then show ?thesis using len nth renamed(1-3) by blast
  next
    case stale
    then have "mistakes t = [InvalidReplacePatternMistake]"
      unfolding publish_def by simp
    then show ?thesis using assms(2) by simp
  next
    case copied
    have "picked_paths t = picked_paths s" "renamed_paths t = Some (picked_paths s)"
      unfolding copied(2) publish_def entered_def by simp_all
    then show ?thesis using copied(1) by blast
  qed
qed

text \<open>
  C2, amended. After a recompute that returns without an \<open>InvalidReplacePattern\<close>
  mistake, the renamed paths are published, as many as the picked paths and in their order,
  and the entry at an index depends only on the picked path at that index, the regex, the
  replace pattern and the target: two recomputes with the same regex, replace pattern and
  target, in any two models and on any two filesystems, publish the same renamed path
  wherever they have the same picked path.
\<close>

theorem renamed_paths_pointwise:
  assumes "recompute lib fs1 s1 = (None, t1)" "recompute lib fs2 s2 = (None, t2)"
    and "InvalidReplacePatternMistake \<notin> set (mistakes t1)"
    and "InvalidReplacePatternMistake \<notin> set (mistakes t2)"
    and "regex s1 = regex s2" "replace_pattern s1 = replace_pattern s2"
        "rename_target s1 = rename_target s2"
  shows "\<exists>r1 r2. renamed_paths t1 = Some r1 \<and> renamed_paths t2 = Some r2
           \<and> length r1 = length (picked_paths t1) \<and> length r2 = length (picked_paths t2)
           \<and> (\<forall>i<length r1. \<forall>j<length r2.
                 picked_paths t1 ! i = picked_paths t2 ! j \<longrightarrow> r1 ! i = r2 ! j)"
proof -
  from recompute_pointwise[OF assms(1,3)] obtain r1 where
    p1: "picked_paths t1 = picked_paths s1" and
    r1: "renamed_paths t1 = Some r1" "length r1 = length (picked_paths s1)" and
    c1: "(\<exists>r. regex s1 \<noteq> [] \<and> re_compile lib (regex s1) = Inr r \<and> replace_pattern s1 \<noteq> []
               \<and> (\<forall>i<length r1. rename lib r (picked_paths s1 ! i) (replace_pattern s1) (rename_target s1)
                                  = Inr (r1 ! i)))
            \<or> ((regex s1 = [] \<or> re_compile lib (regex s1) = Inl ReError \<or> replace_pattern s1 = [])
               \<and> r1 = picked_paths s1)"
    by blast
  from recompute_pointwise[OF assms(2,4)] obtain r2 where
    p2: "picked_paths t2 = picked_paths s2" and
    r2: "renamed_paths t2 = Some r2" "length r2 = length (picked_paths s2)" and
    c2: "(\<exists>r. regex s2 \<noteq> [] \<and> re_compile lib (regex s2) = Inr r \<and> replace_pattern s2 \<noteq> []
               \<and> (\<forall>i<length r2. rename lib r (picked_paths s2 ! i) (replace_pattern s2) (rename_target s2)
                                  = Inr (r2 ! i)))
            \<or> ((regex s2 = [] \<or> re_compile lib (regex s2) = Inl ReError \<or> replace_pattern s2 = [])
               \<and> r2 = picked_paths s2)"
    by blast
  have "r1 ! i = r2 ! j"
    if h: "i < length r1" "j < length r2" "picked_paths t1 ! i = picked_paths t2 ! j" for i j
  proof -
    from c1 show ?thesis
    proof
      assume "\<exists>r. regex s1 \<noteq> [] \<and> re_compile lib (regex s1) = Inr r \<and> replace_pattern s1 \<noteq> []
               \<and> (\<forall>i<length r1. rename lib r (picked_paths s1 ! i) (replace_pattern s1) (rename_target s1)
                                  = Inr (r1 ! i))"
      then obtain r where a: "regex s1 \<noteq> []" "re_compile lib (regex s1) = Inr r" "replace_pattern s1 \<noteq> []"
        "rename lib r (picked_paths s1 ! i) (replace_pattern s1) (rename_target s1) = Inr (r1 ! i)"
        using h(1) by blast
      from c2 a(1-3) assms(5,6) have
        "\<forall>j<length r2. rename lib r (picked_paths s2 ! j) (replace_pattern s2) (rename_target s2)
                                  = Inr (r2 ! j)"
        by auto
      then have "rename lib r (picked_paths s2 ! j) (replace_pattern s2) (rename_target s2) = Inr (r2 ! j)"
        using h(2) by simp
      then show ?thesis using a(4) h(3) p1 p2 assms(6,7) by simp
    next
      assume b: "(regex s1 = [] \<or> re_compile lib (regex s1) = Inl ReError \<or> replace_pattern s1 = [])
               \<and> r1 = picked_paths s1"
      with c2 assms(5,6) have "r2 = picked_paths s2" by auto
      then show ?thesis using b h(3) p1 p2 by simp
    qed
  qed
  then show ?thesis using r1 r2 p1 p2 by simp
qed

theorem renamed_paths_pointwise_witness:
  "recompute demo (Map.empty :: nat filesystem) one_file = (None, one_file_renamed)
   \<and> recompute demo (Map.empty :: nat filesystem) two_files = (None, two_files_renamed)
   \<and> InvalidReplacePatternMistake \<notin> set (mistakes one_file_renamed)
   \<and> InvalidReplacePatternMistake \<notin> set (mistakes two_files_renamed)
   \<and> picked_paths one_file_renamed ! 0 = picked_paths two_files_renamed ! 1
   \<and> (\<exists>r1 r2. renamed_paths one_file_renamed = Some r1
          \<and> renamed_paths two_files_renamed = Some r2
          \<and> length r1 = 1 \<and> length r2 = 2 \<and> r1 ! 0 = r2 ! 1)"
proof -
  have a: "recompute demo (Map.empty :: nat filesystem) two_files = (None, two_files_renamed)"
    by code_simp
  have m: "InvalidReplacePatternMistake \<notin> set (mistakes one_file_renamed)"
          "InvalidReplacePatternMistake \<notin> set (mistakes two_files_renamed)"
    by (simp_all add: one_file_renamed_def two_files_renamed_def)
  have e: "regex one_file = regex two_files" "replace_pattern one_file = replace_pattern two_files"
          "rename_target one_file = rename_target two_files"
    by (simp_all add: two_files_def)
  from renamed_paths_pointwise[OF one_file_recompute a m e] one_file_recompute a m
  show ?thesis by (simp add: one_file_renamed_def two_files_renamed_def)
qed

subsection \<open>Apply, then undo\<close>
















subsection \<open>Renaming the name\<close>

lemma split_sep_nonempty: "split_sep s \<noteq> []"
  by (induction s) (auto split: list.splits)

lemma split_sep_no_sep: "CHR ''/'' \<notin> set n \<Longrightarrow> split_sep n = [n]"
  by (induction n) auto

lemma split_sep_pieces: "c \<in> set (split_sep s) \<Longrightarrow> CHR ''/'' \<notin> set c"
proof (induction s arbitrary: c)
  case Nil
  then show ?case by simp
next
  case (Cons x xs)
  show ?case
  proof (cases "x = CHR ''/''")
    case True
    then show ?thesis using Cons by auto
  next
    case False
    obtain w ws where w: "split_sep xs = w # ws"
      using split_sep_nonempty[of xs] by (cases "split_sep xs") auto
    then have "c = x # w \<or> c \<in> set ws" using Cons.prems False by simp
    then show ?thesis using Cons.IH[of w] Cons.IH[of c] w False by auto
  qed
qed

lemma split_sep_append:
  "CHR ''/'' \<notin> set x \<Longrightarrow> split_sep (x @ CHR ''/'' # rest) = x # split_sep rest"
  by (induction x) auto

lemma split_join:
  "cs \<noteq> [] \<Longrightarrow> \<forall>c\<in>set cs. CHR ''/'' \<notin> set c \<Longrightarrow> split_sep (join_sep cs) = cs"
proof (induction cs rule: join_sep.induct)
  case 1
  then show ?case by simp
next
  case (2 x)
  then show ?case by (simp add: split_sep_no_sep)
next
  case (3 x y ys)
  then show ?case by (simp add: split_sep_append)
qed

lemma join_sep_head:
  "cs \<noteq> [] \<Longrightarrow> list_all component cs \<Longrightarrow> join_sep cs \<noteq> [] \<and> hd (join_sep cs) \<noteq> CHR ''/''"
proof (induction cs rule: join_sep.induct)
  case 1
  then show ?case by simp
next
  case (2 x)
  then show ?case by (cases x) (auto simp: component_def)
next
  case (3 x y ys)
  then show ?case by (cases x) (auto simp: component_def)
qed

lemma parse_path_well_formed: "well_formed (parse_path s)"
proof -
  have "list_all component (filter (\<lambda>x. x \<noteq> [] \<and> x \<noteq> ''.'') (split_sep rel))" for rel
    using split_sep_pieces[of _ rel] by (auto simp: list_all_iff component_def)
  then show ?thesis
    by (auto simp: well_formed_def parse_path_def splitroot_def split: prod.splits if_splits)
qed

lemma filter_components:
  "list_all component cs \<Longrightarrow> filter (\<lambda>x. x \<noteq> [] \<and> x \<noteq> ''.'') cs = cs"
  by (induction cs) (auto simp: component_def)

lemma parse_rel_join:
  assumes "list_all component cs"
  shows "filter (\<lambda>x. x \<noteq> [] \<and> x \<noteq> ''.'') (split_sep (join_sep cs)) = cs"
proof (cases cs)
  case Nil
  then show ?thesis by simp
next
  case (Cons c cs')
  have "\<forall>c\<in>set cs. CHR ''/'' \<notin> set c" using assms by (auto simp: list_all_iff component_def)
  then have "split_sep (join_sep cs) = cs" using Cons by (intro split_join) auto
  then show ?thesis using filter_components[OF assms] by simp
qed

text \<open>Parsing the string of a well-formed path gives the path back.\<close>

lemma parse_path_str:
  assumes "well_formed q"
  shows "parse_path (path_str q) = q"
proof -
  have comps: "list_all component (path_tail q)" using assms by (simp add: well_formed_def)
  note pj = parse_rel_join[OF comps]
  have hd: "path_tail q \<noteq> [] \<Longrightarrow> join_sep (path_tail q) \<noteq> [] \<and> hd (join_sep (path_tail q)) \<noteq> CHR ''/''"
    using join_sep_head[OF _ comps] by simp
  consider (rel) "path_root q = []" | (one) "path_root q = ''/''" | (two) "path_root q = ''//''"
    using assms by (auto simp: well_formed_def)
  then show ?thesis
  proof cases
    case rel
    show ?thesis
    proof (cases "path_tail q = []")
      case True
      then show ?thesis using rel
        by (simp add: path_str_def parse_path_def splitroot_def)
    next
      case False
      obtain c j where j: "join_sep (path_tail q) = c # j" "c \<noteq> CHR ''/''"
        using hd[OF False] by (cases "join_sep (path_tail q)") auto
      then show ?thesis using rel pj
        by (simp add: path_str_def parse_path_def splitroot_def)
    qed
  next
    case one
    show ?thesis
    proof (cases "path_tail q = []")
      case True
      then show ?thesis using one
        by (simp add: path_str_def parse_path_def splitroot_def)
    next
      case False
      obtain c j where j: "join_sep (path_tail q) = c # j" "c \<noteq> CHR ''/''"
        using hd[OF False] by (cases "join_sep (path_tail q)") auto
      then show ?thesis using one pj
        by (simp add: path_str_def parse_path_def splitroot_def)
    qed
  next
    case two
    show ?thesis
    proof (cases "path_tail q = []")
      case True
      then show ?thesis using two
        by (simp add: path_str_def parse_path_def splitroot_def)
    next
      case False
      obtain c j where j: "join_sep (path_tail q) = c # j" "c \<noteq> CHR ''/''"
        using hd[OF False] by (cases "join_sep (path_tail q)") auto
      then show ?thesis using two pj
        by (simp add: path_str_def parse_path_def splitroot_def)
    qed
  qed
qed

lemma parse_component: "component n \<Longrightarrow> parse_path n = \<lparr>path_root = [], path_tail = [n]\<rparr>"
  by (cases n) (auto simp: component_def parse_path_def splitroot_def split_sep_no_sep)

lemma parent_well_formed: "well_formed p \<Longrightarrow> well_formed (parent p)"
  by (auto simp: well_formed_def parent_def list_all_iff dest: in_set_butlastD)

text \<open>
  C9, amended. With the target \<open>Name\<close> the substitution is applied to the final component
  of the picked path only; when the substituted name is itself one component (not empty,
  without a separator, not a dot), it is the final component of the renamed path, and the
  parent of the renamed path is the parent of the picked path.
\<close>

theorem rename_using_name_parent:
  assumes "re_sub lib r repl (name (parse_path path)) = Inr n"
    and "n \<noteq> []" "CHR ''/'' \<notin> set n" "n \<noteq> ''.''"
  shows "\<exists>renamed. rename lib r path repl NAME = Inr renamed
           \<and> name (parse_path renamed) = n
           \<and> parent (parse_path renamed) = parent (parse_path path)"
proof -
  define p where "p = parse_path path"
  define q where "q = joinpath (parent p) n"
  have c: "component n" using assms(2-4) by (simp add: component_def)
  have q: "q = \<lparr>path_root = path_root (parent p), path_tail = path_tail (parent p) @ [n]\<rparr>"
    unfolding q_def joinpath_def joinpath_path_def parse_component[OF c] by simp
  have "well_formed (parent p)" unfolding p_def by (intro parent_well_formed parse_path_well_formed)
  then have "well_formed q" using c unfolding q by (simp add: well_formed_def)
  then have rt: "parse_path (path_str q) = q" by (rule parse_path_str)
  have r: "rename lib r path repl NAME = Inr (path_str q)"
    using assms(1) by (simp add: rename_using_name_def Let_def p_def q_def)
  have "name q = n" unfolding q by (simp add: name_def)
  moreover have "parent q = parent p" unfolding q by (simp add: parent_def)
  ultimately show ?thesis using r rt unfolding p_def by simp
qed

theorem rename_using_name_parent_witness:
  "re_sub demo (CHR ''a'') ''b'' (name (parse_path ''/tmp/a.txt'')) = Inr ''b.txt''
   \<and> rename demo (CHR ''a'') ''/tmp/a.txt'' ''b'' NAME = Inr ''/tmp/b.txt''
   \<and> name (parse_path ''/tmp/b.txt'') = ''b.txt''
   \<and> parent (parse_path ''/tmp/b.txt'') = parent (parse_path ''/tmp/a.txt'')"
proof -
  have h: "re_sub demo (CHR ''a'') ''b'' (name (parse_path ''/tmp/a.txt'')) = Inr ''b.txt''"
    by code_simp
  have e: "rename demo (CHR ''a'') ''/tmp/a.txt'' ''b'' NAME = Inr ''/tmp/b.txt''"
    by code_simp
  from rename_using_name_parent[OF h] h e show ?thesis by simp
qed

text \<open>
  C9, as it is stated, fails when the substituted name contains a separator: the renamed
  path lies in another directory.
\<close>

theorem rename_using_name_parent_counterexample:
  "rename demo (CHR ''a'') ''/tmp/a.txt'' ''b/c'' NAME = Inr ''/tmp/b/c.txt''
   \<and> parent (parse_path ''/tmp/b/c.txt'') \<noteq> parent (parse_path ''/tmp/a.txt'')"
  by code_simp

end
